theory Spec2Isabelle
  imports Main "HOL-Library.Word"
begin

unbundle bit_operations_syntax

section \<open>Values, bytes and errors\<close>

text \<open>
  The header reconstructor of \<^verbatim>\<open>packages/scripts/src/solveChallenge12.ts\<close> works on
  \<^verbatim>\<open>Uint8Array\<close>s and on \<^verbatim>\<open>0x\<close>-prefixed hex strings. A byte is an 8-bit word. A
  JavaScript string is a list of code units; the model covers the code units
  U+0000 .. U+00FF, which is what \<^typ>\<open>char\<close> holds.
\<close>

type_synonym byte = "8 word"
type_synonym bytes = "byte list"

text \<open>
  Every \<^verbatim>\<open>throw\<close> that the reconstructor or the library functions it calls can reach
  is a value of \<open>error\<close>.
\<close>

datatype error =
    UndefinedValue
  | NegativeValue
  | NotAnInteger
  | InvalidByteSequence
  | InvalidLogsBloomLength nat
  | LengthTooLarge
  | OffsetOutOfBounds
  | BlockNotFound

text \<open>
  The values a block field can hold (the fields are read through \<^verbatim>\<open>any\<close>). A
  \<^verbatim>\<open>number\<close> whose value is an integer is \<open>JNumber\<close> of that integer; every
  other \<^verbatim>\<open>number\<close> (a fraction, NaN, an infinity) is \<open>JNumberNonInteger\<close>, on which
  \<^verbatim>\<open>BigInt(value)\<close> throws a RangeError.
\<close>

datatype jsval =
    JUndefined
  | JNull
  | JBigInt int
  | JNumber int
  | JNumberNonInteger
  | JString string
  | JUint8Array bytes
  | JBoolean bool

subsection \<open>Library functions: hex strings\<close>

text \<open>
  \<^verbatim>\<open>hexToBytes\<close>, \<^verbatim>\<open>bytesToHex\<close>, \<^verbatim>\<open>toRlp\<close> and \<^verbatim>\<open>keccak256\<close> are imported from the
  viem library. They are modelled after the library's behaviour; the Keccak-256
  permutation itself is a parameter \<open>H\<close> of everything that hashes.
\<close>

definition charCodeToBase16 :: "char \<Rightarrow> nat option" where
  "charCodeToBase16 c =
     (let n = (of_char c :: nat) in
      if 48 \<le> n \<and> n \<le> 57 then Some (n - 48)
      else if 65 \<le> n \<and> n \<le> 70 then Some (n - 55)
      else if 97 \<le> n \<and> n \<le> 102 then Some (n - 87)
      else None)"

text \<open>The loop of \<^verbatim>\<open>hexToBytes\<close>: two characters make one byte; a character that is
  no hex digit (or a missing one) throws.\<close>

fun hex_pairs :: "string \<Rightarrow> error + bytes" where
  "hex_pairs [] = Inr []"
| "hex_pairs [c] = Inl InvalidByteSequence"
| "hex_pairs (a # b # cs) =
     (case (charCodeToBase16 a, charCodeToBase16 b) of
        (Some l, Some r) \<Rightarrow>
          (case hex_pairs cs of
             Inl e \<Rightarrow> Inl e
           | Inr bs \<Rightarrow> Inr (of_nat (l * 16 + r) # bs))
      | _ \<Rightarrow> Inl InvalidByteSequence)"

text \<open>\<^verbatim>\<open>hexToBytes(hex)\<close>: drop the first two characters (\<^verbatim>\<open>hex.slice(2)\<close>), put a
  \<^verbatim>\<open>0\<close> in front of an odd number of digits, decode the pairs.\<close>

definition hexToBytes :: "string \<Rightarrow> error + bytes" where
  "hexToBytes hex =
     (let hexString = drop 2 hex;
          hexString' = (if odd (length hexString) then CHR ''0'' # hexString else hexString)
      in hex_pairs hexString')"

definition hex_digit :: "nat \<Rightarrow> char" where
  "hex_digit d = ''0123456789abcdef'' ! d"

definition byte_hex :: "byte \<Rightarrow> string" where
  "byte_hex b = [hex_digit (unat b div 16), hex_digit (unat b mod 16)]"

definition bytesToHex :: "bytes \<Rightarrow> string" where
  "bytesToHex bs = ''0x'' @ concat (map byte_hex bs)"

subsection \<open>JavaScript built-ins\<close>

text \<open>\<^verbatim>\<open>bigint.toString(16)\<close> of a non-negative value: lower-case digits, most
  significant first, no leading zero.\<close>

fun toString16 :: "nat \<Rightarrow> string" where
  "toString16 n = (if n < 16 then [hex_digit n] else toString16 (n div 16) @ [hex_digit (n mod 16)])"

declare toString16.simps [simp del]

text \<open>\<^verbatim>\<open>new TextEncoder().encode(s)\<close>: UTF-8. A code unit below U+0080 is one byte, one
  from U+0080 to U+00FF is two.\<close>

definition utf8_unit :: "char \<Rightarrow> bytes" where
  "utf8_unit c =
     (let n = (of_char c :: nat) in
      if n < 128 then [of_nat n] else [of_nat (192 + n div 64), of_nat (128 + n mod 64)])"

definition TextEncoder_encode :: "string \<Rightarrow> bytes" where
  "TextEncoder_encode s = concat (map utf8_unit s)"

text \<open>\<^verbatim>\<open>s.toLowerCase()\<close> on U+0000 .. U+00FF: A-Z and the Latin-1 capitals
  U+00C0 .. U+00DE (without the multiplication sign U+00D7) move up by 32.\<close>

definition lower_unit :: "char \<Rightarrow> char" where
  "lower_unit c =
     (let n = (of_char c :: nat) in
      if (65 \<le> n \<and> n \<le> 90) \<or> (192 \<le> n \<and> n \<le> 222 \<and> n \<noteq> 215) then char_of (n + 32) else c)"

definition toLowerCase :: "string \<Rightarrow> string" where
  "toLowerCase s = map lower_unit s"

text \<open>The characters the regular expression \<^verbatim>\<open>\s\<close> matches, up to U+00FF, and
  \<^verbatim>\<open>s.replace(/\s+/g, '')\<close>.\<close>

definition is_space :: "char \<Rightarrow> bool" where
  "is_space c = ((of_char c :: nat) \<in> {9, 10, 11, 12, 13, 32, 160})"

definition remove_whitespace :: "string \<Rightarrow> string" where
  "remove_whitespace s = filter (\<lambda>c. \<not> is_space c) s"

definition startsWith :: "string \<Rightarrow> string \<Rightarrow> bool" where
  "startsWith s p = (take (length p) s = p)"

section \<open>Field conversion\<close>

text \<open>\<^verbatim>\<open>toFieldBytes(value: any): Uint8Array\<close>, branch by branch. The last branch of the
  source hands every other value to viem's \<^verbatim>\<open>toBytes\<close>; of those values the model has
  the booleans, which \<^verbatim>\<open>toBytes\<close> turns into the one byte 1 or 0.\<close>

definition bigint_bytes :: "int \<Rightarrow> error + bytes" where
  "bigint_bytes bigintValue =
     (if bigintValue = 0 then Inr []
      else if bigintValue < 0 then Inl NegativeValue
      else let hex = toString16 (nat bigintValue);
               padded = (if even (length hex) then hex else CHR ''0'' # hex)
           in hexToBytes (''0x'' @ padded))"

fun toFieldBytes :: "jsval \<Rightarrow> error + bytes" where
  "toFieldBytes JUndefined = Inl UndefinedValue"
| "toFieldBytes JNull = Inl UndefinedValue"
| "toFieldBytes (JBigInt n) = bigint_bytes n"
| "toFieldBytes (JNumber n) = bigint_bytes n"
| "toFieldBytes JNumberNonInteger = Inl NotAnInteger"
| "toFieldBytes (JString s) =
     (if s = '''' \<or> s = ''0x'' \<or> s = ''0x0'' \<or> s = ''0x00'' then Inr []
      else if startsWith s ''0x'' then hexToBytes s
      else Inr (TextEncoder_encode s))"
| "toFieldBytes (JUint8Array bs) = Inr bs"
| "toFieldBytes (JBoolean b) = Inr [if b then 1 else 0]"

text \<open>\<^verbatim>\<open>result.set(src, offset)\<close> on a typed array: the bytes of \<open>src\<close> overwrite
  \<open>result\<close> from \<open>offset\<close> on; a source that does not fit throws a RangeError.\<close>

definition typed_array_set :: "bytes \<Rightarrow> bytes \<Rightarrow> nat \<Rightarrow> error + bytes" where
  "typed_array_set result src offset =
     (if offset + length src \<le> length result
      then Inr (take offset result @ src @ drop (offset + length src) result)
      else Inl OffsetOutOfBounds)"

text \<open>\<^verbatim>\<open>toNonceBytes(nonce: string | undefined): Uint8Array\<close>. \<open>None\<close> is the missing
  nonce; the empty string is falsy as well.\<close>

definition toNonceBytes :: "string option \<Rightarrow> error + bytes" where
  "toNonceBytes nonce =
     (case nonce of
        None \<Rightarrow> hexToBytes ''0x0000000000000000''
      | Some s \<Rightarrow>
          if s = '''' \<or> s = ''0x0000000000000000'' then hexToBytes ''0x0000000000000000''
          else (case hexToBytes s of
                  Inl e \<Rightarrow> Inl e
                | Inr bs \<Rightarrow>
                    if length bs = 8 then Inr bs
                    else let result = replicate 8 (0 :: byte) in
                         if length bs < 8 then typed_array_set result bs (8 - length bs)
                         else typed_array_set result (take 8 bs) 0))"

section \<open>RLP encoding and hashing\<close>

text \<open>viem's \<^verbatim>\<open>toRlp\<close> on a list of byte arrays. \<^verbatim>\<open>getSizeOfLength\<close> is evaluated for every
  item and for the list body, whatever the length, and throws from \<open>2^32\<close> on.\<close>

definition getSizeOfLength :: "nat \<Rightarrow> error + nat" where
  "getSizeOfLength n =
     (if n < 2 ^ 8 then Inr 1
      else if n < 2 ^ 16 then Inr 2
      else if n < 2 ^ 24 then Inr 3
      else if n < 2 ^ 32 then Inr 4
      else Inl LengthTooLarge)"

text \<open>\<^verbatim>\<open>cursor.pushUint8\<close> .. \<^verbatim>\<open>pushUint32\<close>: \<open>v\<close> in \<open>sz\<close> bytes, big-endian.\<close>

definition uint_be :: "nat \<Rightarrow> nat \<Rightarrow> bytes" where
  "uint_be sz v = map (\<lambda>i. of_nat (v div 256 ^ (sz - 1 - i))) [0..<sz]"

definition encode_bytes :: "bytes \<Rightarrow> error + bytes" where
  "encode_bytes bs =
     (case getSizeOfLength (length bs) of
        Inl e \<Rightarrow> Inl e
      | Inr sizeOfBytesLength \<Rightarrow>
          Inr (if length bs = 1 \<and> hd bs < 0x80 then bs
               else if length bs \<le> 55 then of_nat (0x80 + length bs) # bs
               else of_nat (0x80 + 55 + sizeOfBytesLength)
                      # uint_be sizeOfBytesLength (length bs) @ bs))"

text \<open>Results of calls made one after the other: the first throw wins.\<close>

fun sequence_err :: "(error + 'a) list \<Rightarrow> error + 'a list" where
  "sequence_err [] = Inr []"
| "sequence_err (Inl e # rs) = Inl e"
| "sequence_err (Inr x # rs) =
     (case sequence_err rs of Inl e \<Rightarrow> Inl e | Inr xs \<Rightarrow> Inr (x # xs))"

definition toRlp :: "bytes list \<Rightarrow> error + string" where
  "toRlp items =
     (case sequence_err (map encode_bytes items) of
        Inl e \<Rightarrow> Inl e
      | Inr encs \<Rightarrow>
          let body = concat encs; bodyLength = length body in
          (case getSizeOfLength bodyLength of
             Inl e \<Rightarrow> Inl e
           | Inr sizeOfBodyLength \<Rightarrow>
               Inr (bytesToHex
                 (if bodyLength \<le> 55 then of_nat (0xc0 + bodyLength) # body
                  else of_nat (0xc0 + 55 + sizeOfBodyLength)
                         # uint_be sizeOfBodyLength bodyLength @ body))))"

text \<open>viem's \<^verbatim>\<open>keccak256(value)\<close> on a string: a string that is hex (it starts with
  \<^verbatim>\<open>0x\<close> and holds hex digits only, which is when \<open>hexToBytes\<close> decodes it) is decoded,
  every other string is taken as its UTF-8 bytes; the bytes are hashed with \<open>H\<close> and
  the digest comes back as a hex string. It never throws.\<close>

definition keccak256 :: "(bytes \<Rightarrow> bytes) \<Rightarrow> string \<Rightarrow> string" where
  "keccak256 H value =
     bytesToHex (H (case hexToBytes value of
                      Inl e \<Rightarrow> TextEncoder_encode value
                    | Inr bs \<Rightarrow> if startsWith value ''0x'' then bs else TextEncoder_encode value))"

section \<open>The fetched block\<close>

text \<open>
  The block as \<^verbatim>\<open>publicClient.getBlock\<close> hands it over. \<open>hash\<close>, \<open>logsBloom\<close> and
  \<open>nonce\<close> are used as strings by the source; \<open>None\<close> is a missing one (null or
  undefined, which the source does not tell apart for them). Every other header field
  is read through \<^verbatim>\<open>any\<close>. \<open>totalDifficulty\<close>, \<open>blockSize\<close>, \<open>transactions\<close> and
  \<open>uncles\<close> are attributes of a block that the reconstructor never reads.
\<close>

record block =
  hash :: "string option"
  parentHash :: jsval
  sha3Uncles :: jsval
  miner :: jsval
  coinbase :: jsval
  stateRoot :: jsval
  transactionsRoot :: jsval
  receiptsRoot :: jsval
  logsBloom :: "string option"
  difficulty :: jsval
  number :: jsval
  gasLimit :: jsval
  gasUsed :: jsval
  timestamp :: jsval
  extraData :: jsval
  mixHash :: jsval
  nonce :: "string option"
  baseFeePerGas :: jsval
  withdrawalsRoot :: jsval
  blobGasUsed :: jsval
  excessBlobGas :: jsval
  parentBeaconBlockRoot :: jsval
  requestsHash :: jsval
  totalDifficulty :: jsval
  blockSize :: jsval
  transactions :: "string list"
  uncles :: "string list"

text \<open>\<^verbatim>\<open>a ?? b\<close>\<close>

definition nullish :: "jsval \<Rightarrow> jsval \<Rightarrow> jsval" where
  "nullish a b = (if a = JUndefined \<or> a = JNull then b else a)"

definition string_or_undefined :: "string option \<Rightarrow> jsval" where
  "string_or_undefined v = (case v of None \<Rightarrow> JUndefined | Some s \<Rightarrow> JString s)"

section \<open>bruteforceRLP\<close>

text \<open>
  \<^verbatim>\<open>// Process logsBloom\<close>: a truthy \<open>logsBloom\<close> (a non-empty string) loses its white
  space and must decode to 256 bytes. The result is the new value of the variable
  \<open>logsBloom\<close>.
\<close>

definition check_logsBloom :: "string option \<Rightarrow> error + string option" where
  "check_logsBloom lb =
     (case lb of
        None \<Rightarrow> Inr None
      | Some s \<Rightarrow>
          if s = [] then Inr (Some s)
          else let s' = remove_whitespace s in
               (case hexToBytes s' of
                  Inl e \<Rightarrow> Inl e
                | Inr bloomBytes \<Rightarrow>
                    if length bloomBytes \<noteq> 256
                    then Inl (InvalidLogsBloomLength (length bloomBytes))
                    else Inr (Some s')))"

text \<open>\<^verbatim>\<open>// Base fields (always included)\<close>: fifteen conversions, in this order.\<close>

definition baseFields :: "'a block_scheme \<Rightarrow> string option \<Rightarrow> error + bytes list" where
  "baseFields blk logsBloom' =
     sequence_err
       [toFieldBytes (parentHash blk),
        toFieldBytes (nullish (sha3Uncles blk)
          (JString ''0x1dcc4de8dec75d7aab85b567b6ccd41ad312451b948a7413f0a142fd40d49347'')),
        toFieldBytes (nullish (nullish (miner blk) (coinbase blk))
          (JString ''0x4200000000000000000000000000000000000011'')),
        toFieldBytes (stateRoot blk),
        toFieldBytes (transactionsRoot blk),
        toFieldBytes (receiptsRoot blk),
        toFieldBytes (string_or_undefined logsBloom'),
        toFieldBytes (nullish (difficulty blk) (JBigInt 0)),
        toFieldBytes (number blk),
        toFieldBytes (gasLimit blk),
        toFieldBytes (gasUsed blk),
        toFieldBytes (timestamp blk),
        toFieldBytes (nullish (extraData blk) (JString ''0x'')),
        toFieldBytes (nullish (mixHash blk)
          (JString ''0x0000000000000000000000000000000000000000000000000000000000000000'')),
        toNonceBytes (Some (case nonce blk of None \<Rightarrow> ''0x0000000000000000'' | Some s \<Rightarrow> s))]"

text \<open>The six \<^verbatim>\<open>if (optionalFields.x !== undefined) availableOptionalFields.push(...)\<close>.
  A field that is \<^verbatim>\<open>null\<close> is not \<^verbatim>\<open>undefined\<close>: it is pushed.\<close>

definition availableOptionalFields :: "'a block_scheme \<Rightarrow> (string \<times> jsval) list" where
  "availableOptionalFields blk =
     filter (\<lambda>f. snd f \<noteq> JUndefined)
       [(''baseFeePerGas'', baseFeePerGas blk),
        (''withdrawalsRoot'', withdrawalsRoot blk),
        (''blobGasUsed'', blobGasUsed blk),
        (''excessBlobGas'', excessBlobGas blk),
        (''parentBeaconBlockRoot'', parentBeaconBlockRoot blk),
        (''requestsHash'', requestsHash blk)]"

text \<open>\<^verbatim>\<open>xs.findIndex(p)\<close> where some element satisfies \<open>p\<close> (the source asks
  \<^verbatim>\<open>xs.some(p)\<close> first).\<close>

definition findIndex :: "('a \<Rightarrow> bool) \<Rightarrow> 'a list \<Rightarrow> nat" where
  "findIndex p xs = length (takeWhile (\<lambda>x. \<not> p x) xs)"

definition priorityMasks :: "(string \<times> jsval) list \<Rightarrow> nat \<Rightarrow> nat list" where
  "priorityMasks avail totalCombinations =
     (if list_ex (\<lambda>f. fst f = ''baseFeePerGas'') avail
      then [push_bit (findIndex (\<lambda>f. fst f = ''baseFeePerGas'') avail) 1] else [])
     @ (if totalCombinations > 1 then [totalCombinations - 1] else [])"

text \<open>The inner loop \<^verbatim>\<open>for (let i = 0; i < availableOptionalFields.length; i++)\<close>, from
  index \<open>i\<close> on: a field whose bit is set in the mask \<open>msk\<close> is converted and pushed. There are
  at most six fields, so \<^verbatim>\<open>1 << i\<close> stays far below 32 bits.\<close>

fun include_fields ::
  "nat \<Rightarrow> nat \<Rightarrow> (string \<times> jsval) list \<Rightarrow> bytes list \<times> string list
     \<Rightarrow> error + (bytes list \<times> string list)" where
  "include_fields msk i [] (headerList, included) = Inr (headerList, included)"
| "include_fields msk i (f # fs) (headerList, included) =
     (if msk AND push_bit i 1 \<noteq> 0
      then (case toFieldBytes (snd f) of
              Inl e \<Rightarrow> Inl e
            | Inr b \<Rightarrow> include_fields msk (i + 1) fs (headerList @ [b], included @ [fst f]))
      else include_fields msk (i + 1) fs (headerList, included))"

text \<open>The body both search loops share, up to the hash: the header list, its RLP
  encoding, the hash of the encoding.\<close>

definition try_mask ::
  "(bytes \<Rightarrow> bytes) \<Rightarrow> bytes list \<Rightarrow> (string \<times> jsval) list \<Rightarrow> nat
     \<Rightarrow> error + (string \<times> string list \<times> string)" where
  "try_mask H baseFields' avail msk =
     (case include_fields msk 0 avail (baseFields', []) of
        Inl e \<Rightarrow> Inl e
      | Inr (headerList, included) \<Rightarrow>
          (case toRlp headerList of
             Inl e \<Rightarrow> Inl e
           | Inr rlpBytes \<Rightarrow>
               let calculatedHash = keccak256 H rlpBytes
               in Inr (rlpBytes, included, calculatedHash)))"

text \<open>\<^verbatim>\<open>calculatedHash.toLowerCase() === targetHash?.toLowerCase()\<close>; a missing target
  hash equals nothing.\<close>

definition hash_eq :: "string \<Rightarrow> string option \<Rightarrow> bool" where
  "hash_eq calculatedHash targetHash =
     (case targetHash of None \<Rightarrow> False | Some t \<Rightarrow> toLowerCase calculatedHash = toLowerCase t)"

text \<open>
  One search loop over a list of masks. The log is ghost state: one entry, the mask
  and the names of the fields it includes, for every candidate that was encoded and
  hashed. (The source prints the names of the matching candidate to the console.)
  \<open>Inr None\<close> is a loop that ran to its end, \<open>Inr (Some rlp)\<close> is
  \<^verbatim>\<open>return rlpBytes\<close>, \<open>Inl e\<close> is a throw.
\<close>

type_synonym attempt = "nat \<times> string list"

fun search_loop ::
  "(bytes \<Rightarrow> bytes) \<Rightarrow> string option \<Rightarrow> bytes list \<Rightarrow> (string \<times> jsval) list
     \<Rightarrow> nat list \<Rightarrow> attempt list \<Rightarrow> attempt list \<times> (error + string option)" where
  "search_loop H targetHash baseFields' avail [] log = (log, Inr None)"
| "search_loop H targetHash baseFields' avail (msk # masks) log =
     (case try_mask H baseFields' avail msk of
        Inl e \<Rightarrow> (log, Inl e)
      | Inr (rlpBytes, included, calculatedHash) \<Rightarrow>
          if hash_eq calculatedHash targetHash
          then (log @ [(msk, included)], Inr (Some rlpBytes))
          else search_loop H targetHash baseFields' avail masks (log @ [(msk, included)]))"

text \<open>
  \<^verbatim>\<open>bruteforceRLP\<close> from the fetched block on (\<open>None\<close>: no block came back). The
  priority masks are tried first, then every mask from 0 to \<open>2^k - 1\<close> that is not a
  priority mask; the end of the second loop is \<^verbatim>\<open>return null\<close>.
\<close>

definition bruteforceRLP ::
  "(bytes \<Rightarrow> bytes) \<Rightarrow> 'a block_scheme option \<Rightarrow> attempt list \<times> (error + string option)" where
  "bruteforceRLP H fetched =
     (case fetched of
        None \<Rightarrow> ([], Inl BlockNotFound)
      | Some blk \<Rightarrow>
          (case check_logsBloom (logsBloom blk) of
             Inl e \<Rightarrow> ([], Inl e)
           | Inr logsBloom' \<Rightarrow>
               (case baseFields blk logsBloom' of
                  Inl e \<Rightarrow> ([], Inl e)
                | Inr baseFields' \<Rightarrow>
                    let avail = availableOptionalFields blk;
                        totalCombinations = 2 ^ length avail;
                        prio = priorityMasks avail totalCombinations
                    in (case search_loop H (hash blk) baseFields' avail prio [] of
                          (log, Inr None) \<Rightarrow>
                            search_loop H (hash blk) baseFields' avail
                              (filter (\<lambda>msk. msk \<notin> set prio) [0..<totalCombinations]) log
                        | r \<Rightarrow> r))))"

section \<open>Notions used to state the properties\<close>

text \<open>The number a byte string denotes, read big-endian.\<close>

definition be_val :: "bytes \<Rightarrow> nat" where
  "be_val bs = foldl (\<lambda>a b. a * 256 + unat b) 0 bs"

text \<open>The hexadecimal digits of a number as numbers, the value of a digit list, and
  the bytes that pairs of digits make: the steps of \<open>bigint_bytes\<close> without characters.\<close>

fun hex_digits :: "nat \<Rightarrow> nat list" where
  "hex_digits n = (if n < 16 then [n] else hex_digits (n div 16) @ [n mod 16])"

declare hex_digits.simps [simp del]

definition val16 :: "nat list \<Rightarrow> nat" where
  "val16 ds = foldl (\<lambda>a d. a * 16 + d) 0 ds"

fun pair_bytes :: "nat list \<Rightarrow> bytes" where
  "pair_bytes (a # b # ds) = of_nat (a * 16 + b) # pair_bytes ds"
| "pair_bytes _ = []"

definition pad_even :: "nat list \<Rightarrow> nat list" where
  "pad_even ds = (if even (length ds) then ds else 0 # ds)"

text \<open>The order in which \<open>bruteforceRLP\<close> visits the masks: both loops, one after the
  other.\<close>

definition search_order :: "(string \<times> jsval) list \<Rightarrow> nat list" where
  "search_order avail =
     (let totalCombinations = 2 ^ length avail; prio = priorityMasks avail totalCombinations
      in prio @ filter (\<lambda>msk. msk \<notin> set prio) [0..<totalCombinations])"

text \<open>
  The candidate of an inclusion pattern: the RLP encoding of the mandatory fields
  followed by the available optional fields whose bit is set in \<open>msk\<close>, as
  \<open>bruteforceRLP\<close> builds it (\<open>Inl\<close> when the source throws on the way).
\<close>

definition candidate_rlp :: "'a block_scheme \<Rightarrow> nat \<Rightarrow> error + string" where
  "candidate_rlp blk msk =
     (case check_logsBloom (logsBloom blk) of
        Inl e \<Rightarrow> Inl e
      | Inr logsBloom' \<Rightarrow>
          (case baseFields blk logsBloom' of
             Inl e \<Rightarrow> Inl e
           | Inr baseFields' \<Rightarrow>
               (case include_fields msk 0 (availableOptionalFields blk) (baseFields', []) of
                  Inl e \<Rightarrow> Inl e
                | Inr (headerList, included) \<Rightarrow> toRlp headerList)))"

text \<open>The hash of an encoding equals the target, by the comparison of the source.\<close>

definition hash_matches :: "(bytes \<Rightarrow> bytes) \<Rightarrow> string \<Rightarrow> string option \<Rightarrow> bool" where
  "hash_matches H rlp targetHash = hash_eq (keccak256 H rlp) targetHash"

text \<open>The names of the optional fields a mask selects.\<close>

definition included_names :: "nat \<Rightarrow> (string \<times> jsval) list \<Rightarrow> string list" where
  "included_names msk avail = map fst (nths avail {i. bit msk i})"

subsection \<open>Sample inputs\<close>

text \<open>
  A block with every mandatory field, a 256-byte logs bloom and a base fee, and no
  other optional field. Its target hash is still missing; the blocks below set it.
  \<open>plain_digest\<close> is an injective stand-in for Keccak-256.
\<close>

definition plain_digest :: "bytes \<Rightarrow> bytes" where
  "plain_digest bs = bs"

definition zero_bloom :: string where
  "zero_bloom = ''0x'' @ replicate 512 CHR ''0''"

definition london_block :: block where
  "london_block =
     \<lparr> hash = None,
       parentHash = JString ''0x1111111111111111111111111111111111111111111111111111111111111111'',
       sha3Uncles = JString ''0x1dcc4de8dec75d7aab85b567b6ccd41ad312451b948a7413f0a142fd40d49347'',
       miner = JString ''0x4200000000000000000000000000000000000011'',
       coinbase = JUndefined,
       stateRoot = JString ''0x2222222222222222222222222222222222222222222222222222222222222222'',
       transactionsRoot = JString ''0x3333333333333333333333333333333333333333333333333333333333333333'',
       receiptsRoot = JString ''0x4444444444444444444444444444444444444444444444444444444444444444'',
       logsBloom = Some zero_bloom,
       difficulty = JBigInt 0,
       number = JBigInt 1000,
       gasLimit = JBigInt 30000000,
       gasUsed = JBigInt 21000,
       timestamp = JBigInt 1700000000,
       extraData = JString ''0x'',
       mixHash = JString ''0x5555555555555555555555555555555555555555555555555555555555555555'',
       nonce = Some ''0x0000000000000000'',
       baseFeePerGas = JBigInt 7,
       withdrawalsRoot = JUndefined,
       blobGasUsed = JUndefined,
       excessBlobGas = JUndefined,
       parentBeaconBlockRoot = JUndefined,
       requestsHash = JUndefined,
       totalDifficulty = JNull,
       blockSize = JBigInt 600,
       transactions = [],
       uncles = [] \<rparr>"

text \<open>The sample block with another target hash, base fee, withdrawals root and blob
  gas used.\<close>

definition sample_block :: "string option \<Rightarrow> jsval \<Rightarrow> jsval \<Rightarrow> jsval \<Rightarrow> block" where
  "sample_block h fee wroot blob =
     london_block\<lparr>hash := h, baseFeePerGas := fee, withdrawalsRoot := wroot, blobGasUsed := blob\<rparr>"

text \<open>The fifteen mandatory fields of the sample block as bytes, and their RLP items
  one after the other (505 bytes).\<close>

definition london_base :: "bytes list" where
  "london_base =
     [[17, 17, 17, 17, 17, 17, 17, 17, 17, 17, 17, 17, 17, 17, 17, 17,
       17, 17, 17, 17, 17, 17, 17, 17, 17, 17, 17, 17, 17, 17, 17, 17],
      [29, 204, 77, 232, 222, 199, 93, 122, 171, 133, 181, 103, 182, 204, 212, 26,
       211, 18, 69, 27, 148, 138, 116, 19, 240, 161, 66, 253, 64, 212, 147, 71],
      [66, 0, 0, 0, 0, 0, 0, 0, 0, 0, 0, 0, 0, 0, 0, 0, 0, 0, 0, 17],
      [34, 34, 34, 34, 34, 34, 34, 34, 34, 34, 34, 34, 34, 34, 34, 34,
       34, 34, 34, 34, 34, 34, 34, 34, 34, 34, 34, 34, 34, 34, 34, 34],
      [51, 51, 51, 51, 51, 51, 51, 51, 51, 51, 51, 51, 51, 51, 51, 51,
       51, 51, 51, 51, 51, 51, 51, 51, 51, 51, 51, 51, 51, 51, 51, 51],
      [68, 68, 68, 68, 68, 68, 68, 68, 68, 68, 68, 68, 68, 68, 68, 68,
       68, 68, 68, 68, 68, 68, 68, 68, 68, 68, 68, 68, 68, 68, 68, 68],
      replicate 256 0,
      [], [3, 232], [1, 201, 195, 128], [82, 8], [101, 83, 241, 0], [],
      [85, 85, 85, 85, 85, 85, 85, 85, 85, 85, 85, 85, 85, 85, 85, 85,
       85, 85, 85, 85, 85, 85, 85, 85, 85, 85, 85, 85, 85, 85, 85, 85],
      [0, 0, 0, 0, 0, 0, 0, 0]]"

definition london_body :: bytes where
  "london_body =
    [0xa0, 17, 17, 17, 17, 17, 17, 17, 17, 17, 17, 17, 17, 17, 17, 17, 17,
       17, 17, 17, 17, 17, 17, 17, 17, 17, 17, 17, 17, 17, 17, 17, 17,
     0xa0, 29, 204, 77, 232, 222, 199, 93, 122, 171, 133, 181, 103, 182, 204, 212, 26,
       211, 18, 69, 27, 148, 138, 116, 19, 240, 161, 66, 253, 64, 212, 147, 71,
     0x94, 66, 0, 0, 0, 0, 0, 0, 0, 0, 0, 0, 0, 0, 0, 0, 0, 0, 0, 0, 17,
     0xa0, 34, 34, 34, 34, 34, 34, 34, 34, 34, 34, 34, 34, 34, 34, 34, 34,
       34, 34, 34, 34, 34, 34, 34, 34, 34, 34, 34, 34, 34, 34, 34, 34,
     0xa0, 51, 51, 51, 51, 51, 51, 51, 51, 51, 51, 51, 51, 51, 51, 51, 51,
       51, 51, 51, 51, 51, 51, 51, 51, 51, 51, 51, 51, 51, 51, 51, 51,
     0xa0, 68, 68, 68, 68, 68, 68, 68, 68, 68, 68, 68, 68, 68, 68, 68, 68,
       68, 68, 68, 68, 68, 68, 68, 68, 68, 68, 68, 68, 68, 68, 68, 68,
     0xb9, 0x01, 0x00] @ replicate 256 0 @
    [0x80, 0x82, 3, 232, 0x84, 1, 201, 195, 128, 0x82, 82, 8, 0x84, 101, 83, 241, 0, 0x80,
     0xa0, 85, 85, 85, 85, 85, 85, 85, 85, 85, 85, 85, 85, 85, 85, 85, 85,
       85, 85, 85, 85, 85, 85, 85, 85, 85, 85, 85, 85, 85, 85, 85, 85,
     0x88, 0, 0, 0, 0, 0, 0, 0, 0]"

text \<open>Header encodings of the sample block: the mandatory fields alone; with the base
  fee 7; with one empty optional field.\<close>

definition rlp_mandatory :: bytes where
  "rlp_mandatory = [0xf9, 0x01, 0xf9] @ london_body"

definition rlp_with_fee :: bytes where
  "rlp_with_fee = [0xf9, 0x01, 0xfa] @ london_body @ [7]"

definition rlp_with_empty :: bytes where
  "rlp_with_empty = [0xf9, 0x01, 0xfa] @ london_body @ [0x80]"

text \<open>
  The sample block as a client reports it when the header has no base fee: the base
  fee is \<^verbatim>\<open>null\<close>, and the target is the hash of the mandatory fields alone.
\<close>

definition pre_london_block :: "(bytes \<Rightarrow> bytes) \<Rightarrow> block" where
  "pre_london_block H = sample_block (Some (bytesToHex (H rlp_mandatory))) JNull JUndefined JUndefined"

text \<open>The sample block with a base fee, a withdrawals root that is \<^verbatim>\<open>null\<close>, and the
  target hash \<open>h\<close>.\<close>

definition null_withdrawals_block :: "string option \<Rightarrow> block" where
  "null_withdrawals_block h = sample_block h (JBigInt 7) JNull JUndefined"

text \<open>Some inclusion pattern has an encoding whose hash equals the target.\<close>

definition some_pattern_matches :: "(bytes \<Rightarrow> bytes) \<Rightarrow> 'a block_scheme \<Rightarrow> bool" where
  "some_pattern_matches H blk =
     list_ex (\<lambda>msk. case candidate_rlp blk msk of
                      Inl e \<Rightarrow> False
                    | Inr rlp \<Rightarrow> hash_matches H rlp (hash blk))
       [0..<2 ^ length (availableOptionalFields blk)]"

text \<open>Two blocks whose only optional field is a zero: the base fee in one, the blob gas
  used in the other. Both have the hash of the same header as target.\<close>

definition zero_fee_block :: "(bytes \<Rightarrow> bytes) \<Rightarrow> block" where
  "zero_fee_block H =
     sample_block (Some (bytesToHex (H rlp_with_empty))) (JBigInt 0) JUndefined JUndefined"

definition zero_blob_block :: "(bytes \<Rightarrow> bytes) \<Rightarrow> block" where
  "zero_blob_block H =
     sample_block (Some (bytesToHex (H rlp_with_empty))) JUndefined JUndefined (JBigInt 0)"

text \<open>A target hash that is no candidate's hash; the sample block with another logs
  bloom; the fifteen mandatory items of the sample block when the bloom item is empty.\<close>

definition fabricated_hash :: string where
  "fabricated_hash = ''0x0000000000000000000000000000000000000000000000000000000000000000''"



section \<open>Hex digits and bytes\<close>

lemma hex_digit_lt16_cases:
  assumes "d < 16"
  shows "d \<in> {0,1,2,3,4,5,6,7,8,9,10,11,12,13,14,15::nat}"
  using assms by (simp add: less_Suc_eq numeral_eq_Suc) 

lemma charCodeToBase16_hex_digit: "d < 16 \<Longrightarrow> charCodeToBase16 (hex_digit d) = Some d"
  using hex_digit_lt16_cases [of d]
  by (auto simp: hex_digit_def charCodeToBase16_def)

lemma lower_unit_hex_digit: "d < 16 \<Longrightarrow> lower_unit (hex_digit d) = hex_digit d"
  using hex_digit_lt16_cases [of d]
  by (auto simp: hex_digit_def lower_unit_def)

lemma toString16_digits: "toString16 n = map hex_digit (hex_digits n)"
proof (induction n rule: hex_digits.induct)
  case (1 n)
  show ?case
  proof (cases "n < 16")
    case True
    then show ?thesis by (simp add: toString16.simps [of n] hex_digits.simps [of n])
  next
    case False
    with 1 show ?thesis by (simp add: toString16.simps [of n] hex_digits.simps [of n])
  qed
qed

lemma hex_digits_lt16: "d \<in> set (hex_digits n) \<Longrightarrow> d < 16"
proof (induction n rule: hex_digits.induct)
  case (1 n)
  then show ?case
    by (cases "n < 16") (auto simp: hex_digits.simps [of n])
qed

lemma hex_digits_nonempty: "hex_digits n \<noteq> []"
  by (simp add: hex_digits.simps [of n])

lemma hex_digits_hd: "0 < n \<Longrightarrow> hd (hex_digits n) \<noteq> 0"
proof (induction n rule: hex_digits.induct)
  case (1 n)
  show ?case
  proof (cases "n < 16")
    case True
    with 1 show ?thesis by (simp add: hex_digits.simps [of n])
  next
    case False
    then have "0 < n div 16" by simp
    with 1 False show ?thesis
      by (simp add: hex_digits.simps [of n] hex_digits_nonempty)
  qed
qed

lemma val16_hex_digits: "val16 (hex_digits n) = n"
proof (induction n rule: hex_digits.induct)
  case (1 n)
  show ?case
  proof (cases "n < 16")
    case True
    then show ?thesis by (simp add: hex_digits.simps [of n] val16_def)
  next
    case False
    with 1 have "val16 (hex_digits (n div 16)) = n div 16" by simp
    with False show ?thesis
      by (simp add: hex_digits.simps [of n] val16_def)
  qed
qed

lemma hex_pairs_digits:
  "even (length ds) \<Longrightarrow> \<forall>d \<in> set ds. d < 16 \<Longrightarrow> hex_pairs (map hex_digit ds) = Inr (pair_bytes ds)"
proof (induction ds rule: pair_bytes.induct)
  case (1 a b ds)
  then show ?case by (simp add: charCodeToBase16_hex_digit)
qed simp_all

lemma unat_pair: "a < 16 \<Longrightarrow> b < 16 \<Longrightarrow> unat (of_nat (a * 16 + b) :: byte) = a * 16 + b"
  by (simp only: unat_of_nat) simp

lemma foldl_pair_bytes:
  "even (length ds) \<Longrightarrow> \<forall>d \<in> set ds. d < 16 \<Longrightarrow>
   foldl (\<lambda>a b. a * 256 + unat b) acc (pair_bytes ds) = foldl (\<lambda>a d. a * 16 + d) acc ds"
proof (induction ds arbitrary: acc rule: pair_bytes.induct)
  case (1 a b ds)
  have "unat (of_nat (a * 16 + b) :: byte) = a * 16 + b" using 1 by (intro unat_pair) simp_all
  moreover have "even (length ds)" "\<forall>d \<in> set ds. d < 16" using 1 by simp_all
  ultimately show ?case using "1.IH" [of "acc * 256 + (a * 16 + b)"] by (simp add: algebra_simps)
qed simp_all

lemma val16_zero_cons: "val16 (0 # ds) = val16 ds"
  by (simp add: val16_def)

lemma bigint_bytes_pos:
  assumes "0 < n"
  shows "bigint_bytes n = Inr (pair_bytes (pad_even (hex_digits (nat n))))"
proof -
  let ?ds = "hex_digits (nat n)"
  have z: "CHR ''0'' = hex_digit 0" by (simp add: hex_digit_def)
  have pad: "(if even (length (toString16 (nat n))) then toString16 (nat n) else CHR ''0'' # toString16 (nat n))
      = map hex_digit (pad_even ?ds)"
    by (simp add: toString16_digits pad_even_def z)
  have ev: "even (length (pad_even ?ds))" by (simp add: pad_even_def)
  have lt: "\<forall>d \<in> set (pad_even ?ds). d < 16"
    by (auto simp: pad_even_def dest: hex_digits_lt16)
  from assms have "bigint_bytes n = hexToBytes (''0x'' @ map hex_digit (pad_even ?ds))"
    unfolding bigint_bytes_def Let_def pad by simp
  also have "\<dots> = hex_pairs (map hex_digit (pad_even ?ds))"
    using ev by (simp add: hexToBytes_def)
  also have "\<dots> = Inr (pair_bytes (pad_even ?ds))"
    using ev lt by (rule hex_pairs_digits)
  finally show ?thesis .
qed

lemma be_val_pair_bytes_pad: "be_val (pair_bytes (pad_even (hex_digits m))) = m"
proof -
  let ?ds = "hex_digits m"
  have ev: "even (length (pad_even ?ds))" by (simp add: pad_even_def)
  have lt: "\<forall>d \<in> set (pad_even ?ds). d < 16"
    by (auto simp: pad_even_def dest: hex_digits_lt16)
  have "be_val (pair_bytes (pad_even ?ds)) = val16 (pad_even ?ds)"
    unfolding be_val_def val16_def using ev lt by (rule foldl_pair_bytes)
  also have "\<dots> = val16 ?ds" by (simp add: pad_even_def val16_zero_cons)
  finally show ?thesis by (simp add: val16_hex_digits)
qed

lemma pair_bytes_pad_hd:
  assumes "0 < m"
  shows "pair_bytes (pad_even (hex_digits m)) \<noteq> [] \<and> hd (pair_bytes (pad_even (hex_digits m))) \<noteq> 0"
proof -
  let ?ds = "hex_digits m"
  obtain d rest where ds: "?ds = d # rest" using hex_digits_nonempty [of m] by (cases ?ds) auto
  have d0: "d \<noteq> 0" using hex_digits_hd [OF assms] ds by simp
  have dlt: "d < 16" using hex_digits_lt16 [of d m] ds by simp
  show ?thesis
  proof (cases "even (length ?ds)")
    case True
    then obtain e rest' where r: "rest = e # rest'" using ds by (cases rest) auto
    have elt: "e < 16" using hex_digits_lt16 [of e m] ds r by simp
    have "unat (of_nat (d * 16 + e) :: byte) = d * 16 + e" using dlt elt by (rule unat_pair)
    then have "(of_nat (d * 16 + e) :: byte) \<noteq> 0" using d0 by (metis add_is_0 mult_is_0 unat_0 zero_neq_numeral)
    with True ds r show ?thesis by (simp add: pad_even_def)
  next
    case False
    have "unat (of_nat (0 * 16 + d) :: byte) = 0 * 16 + d" using dlt by (intro unat_pair) simp_all
    then have "(of_nat (0 * 16 + d) :: byte) \<noteq> 0" using d0 by (metis add_is_0 unat_0)
    with False ds show ?thesis by (simp add: pad_even_def)
  qed
qed

section \<open>toFieldBytes on integers\<close>

text \<open>
  Claim C3. For a non-negative integer, given as a bigint or as a number,
  \<open>toFieldBytes\<close> returns the minimal big-endian byte string: the bytes denote the
  integer, they are empty exactly for 0, and the first byte of a non-empty result is
  not zero. 0 gives the empty byte string and 256 gives the two bytes 0x01, 0x00.
\<close>

theorem toFieldBytes_minimal_big_endian: 
  assumes "0 \<le> n"
  shows "(\<exists>bs. toFieldBytes (JBigInt n) = Inr bs \<and> toFieldBytes (JNumber n) = Inr bs \<and>
            be_val bs = nat n \<and> (bs = [] \<longleftrightarrow> n = 0) \<and> (bs \<noteq> [] \<longrightarrow> hd bs \<noteq> 0))
         \<and> toFieldBytes (JBigInt 0) = Inr [] \<and> toFieldBytes (JBigInt 256) = Inr [0x01, 0x00]"
proof (intro conjI)
  show "\<exists>bs. toFieldBytes (JBigInt n) = Inr bs \<and> toFieldBytes (JNumber n) = Inr bs \<and>
            be_val bs = nat n \<and> (bs = [] \<longleftrightarrow> n = 0) \<and> (bs \<noteq> [] \<longrightarrow> hd bs \<noteq> 0)"
  proof (cases "n = 0")
    case True
    then show ?thesis by (simp add: bigint_bytes_def be_val_def)
  next
    case False
    with assms have pos: "0 < n" by simp
    then have npos: "0 < nat n" by simp
    let ?bs = "pair_bytes (pad_even (hex_digits (nat n)))"
    have "bigint_bytes n = Inr ?bs" using pos by (rule bigint_bytes_pos)
    moreover have "be_val ?bs = nat n" by (rule be_val_pair_bytes_pad)
    moreover have "?bs \<noteq> [] \<and> hd ?bs \<noteq> 0" using npos by (rule pair_bytes_pad_hd)
    ultimately show ?thesis using False by simp
  qed
  show "toFieldBytes (JBigInt 0) = Inr []" by (simp add: bigint_bytes_def)
  show "toFieldBytes (JBigInt 256) = Inr [0x01, 0x00]"
    by (simp add: bigint_bytes_def toString16.simps hexToBytes_def hex_digit_def charCodeToBase16_def)
qed

text \<open>The theorem at 256.\<close>

theorem toFieldBytes_minimal_big_endian_witness:
  "(0::int) \<le> 256 \<and> toFieldBytes (JBigInt 256) = Inr [0x01, 0x00] \<and> toFieldBytes (JNumber 256) = Inr [0x01, 0x00]
    \<and> be_val [0x01, 0x00] = 256"
  using toFieldBytes_minimal_big_endian [of 256] by (auto simp: be_val_def)

text \<open>
  Claim C9. A negative integer, bigint or number, makes \<open>toFieldBytes\<close> throw
  "Negative values not supported"; \<^verbatim>\<open>undefined\<close> and \<^verbatim>\<open>null\<close> make it throw
  "Undefined value passed to toFieldBytes". Nothing is encoded.
\<close>

theorem toFieldBytes_rejects_negative_and_missing:
  assumes "n < 0"
  shows "toFieldBytes (JBigInt n) = Inl NegativeValue \<and> toFieldBytes (JNumber n) = Inl NegativeValue
    \<and> toFieldBytes JUndefined = Inl UndefinedValue \<and> toFieldBytes JNull = Inl UndefinedValue"
  using assms by (simp add: bigint_bytes_def)

text \<open>The theorem at -1.\<close>

theorem toFieldBytes_rejects_negative_and_missing_witness:
  "(-1::int) < 0 \<and> toFieldBytes (JBigInt (-1)) = Inl NegativeValue \<and> toFieldBytes (JNumber (-1)) = Inl NegativeValue"
  using toFieldBytes_rejects_negative_and_missing [of "-1"] by simp

section \<open>toNonceBytes\<close>

lemma replicate_8: "replicate 8 x = [x, x, x, x, x, x, x, x]"
  by (simp add: numeral_eq_Suc)

lemma zero_nonce: "hexToBytes ''0x0000000000000000'' = Inr (replicate 8 0)"
  by (simp add: hexToBytes_def charCodeToBase16_def replicate_8)

text \<open>
  Claim C5. \<open>toNonceBytes\<close> returns exactly 8 bytes: a missing, empty or all-zero
  nonce gives 8 zero bytes, and a nonce that decodes to the bytes \<open>bs\<close> gives \<open>bs\<close>
  itself when it has 8 bytes, \<open>bs\<close> behind zero bytes when it has fewer, and the first
  8 bytes of \<open>bs\<close> when it has more.
\<close>

theorem toNonceBytes_fixed_width:
  "toNonceBytes None = Inr (replicate 8 0) \<and>
   toNonceBytes (Some '''') = Inr (replicate 8 0) \<and>
   toNonceBytes (Some ''0x0000000000000000'') = Inr (replicate 8 0) \<and>
   (hexToBytes s = Inr bs \<longrightarrow>
      (\<exists>r. toNonceBytes (Some s) = Inr r \<and> length r = 8 \<and>
           (length bs < 8 \<longrightarrow> r = replicate (8 - length bs) 0 @ bs) \<and>
           (length bs = 8 \<longrightarrow> r = bs) \<and>
           (8 < length bs \<longrightarrow> r = take 8 bs)))"
proof (intro conjI impI)
  show "toNonceBytes None = Inr (replicate 8 0)" by (simp add: toNonceBytes_def zero_nonce)
  show "toNonceBytes (Some '''') = Inr (replicate 8 0)" by (simp add: toNonceBytes_def zero_nonce)
  show "toNonceBytes (Some ''0x0000000000000000'') = Inr (replicate 8 0)" by (simp add: toNonceBytes_def zero_nonce)
  assume dec: "hexToBytes s = Inr bs"
  show "\<exists>r. toNonceBytes (Some s) = Inr r \<and> length r = 8 \<and>
           (length bs < 8 \<longrightarrow> r = replicate (8 - length bs) 0 @ bs) \<and>
           (length bs = 8 \<longrightarrow> r = bs) \<and>
           (8 < length bs \<longrightarrow> r = take 8 bs)"
  proof (cases "s = '''' \<or> s = ''0x0000000000000000''")
    case True
    then have "(s = [] \<and> bs = []) \<or> (s = ''0x0000000000000000'' \<and> bs = replicate 8 0)"
      using dec zero_nonce by (auto simp: hexToBytes_def)
    then show ?thesis by (auto simp: toNonceBytes_def zero_nonce)
  next
    case False
    then show ?thesis using dec
      by (auto simp: toNonceBytes_def typed_array_set_def Let_def)
  qed
qed

text \<open>The theorem at a 4-byte nonce and at a 10-byte nonce.\<close>

theorem toNonceBytes_fixed_width_witness:
  "hexToBytes ''0x12345678'' = Inr [0x12, 0x34, 0x56, 0x78] \<and>
   toNonceBytes (Some ''0x12345678'') = Inr [0, 0, 0, 0, 0x12, 0x34, 0x56, 0x78] \<and>
   toNonceBytes (Some ''0x0102030405060708090a'') = Inr [1, 2, 3, 4, 5, 6, 7, 8]"
proof -
  have a: "hexToBytes ''0x12345678'' = Inr [0x12, 0x34, 0x56, 0x78]"
    by (simp add: hexToBytes_def charCodeToBase16_def)
  have b: "hexToBytes ''0x0102030405060708090a'' = Inr [1, 2, 3, 4, 5, 6, 7, 8, 9, 10]"
    by (simp add: hexToBytes_def charCodeToBase16_def)
  from toNonceBytes_fixed_width [of "''0x12345678''" "[0x12, 0x34, 0x56, 0x78]"] a
  have "toNonceBytes (Some ''0x12345678'') = Inr [0, 0, 0, 0, 0x12, 0x34, 0x56, 0x78]"
    by (auto simp: numeral_eq_Suc)
  moreover from toNonceBytes_fixed_width [of "''0x0102030405060708090a''" "[1, 2, 3, 4, 5, 6, 7, 8, 9, 10]"] b
  have "toNonceBytes (Some ''0x0102030405060708090a'') = Inr [1, 2, 3, 4, 5, 6, 7, 8]"
    by auto
  ultimately show ?thesis using a by simp
qed

section \<open>toFieldBytes on strings\<close>

lemma charCodeToBase16_lt16: "charCodeToBase16 c = Some d \<Longrightarrow> d < 16"
  by (auto simp: charCodeToBase16_def Let_def split: if_splits)

lemma charCodeToBase16_zero: "charCodeToBase16 c = Some 0 \<Longrightarrow> c = CHR ''0''"
proof -
  assume a: "charCodeToBase16 c = Some 0"
  then have "(of_char c :: nat) = 48"
    by (auto simp: charCodeToBase16_def Let_def split: if_splits)
  then have "(of_char c :: nat) = of_char CHR ''0''" by simp
  then show ?thesis by (simp only: of_char_eq_iff)
qed

lemma hex_pairs_single_zero:
  assumes "hex_pairs cs = Inr [0]"
  shows "cs = ''00''"
proof (cases cs rule: hex_pairs.cases)
  case 1
  with assms show ?thesis by simp
next
  case (2 c)
  with assms show ?thesis by simp
next
  case (3 a b rest)
  with assms obtain l r where l: "charCodeToBase16 a = Some l" and r: "charCodeToBase16 b = Some r"
    and rest: "hex_pairs rest = Inr []" and z: "(of_nat (l * 16 + r) :: byte) = 0"
    by (auto split: option.splits sum.splits)
  have "l < 16" "r < 16" using l r by (auto dest: charCodeToBase16_lt16)
  then have "unat (of_nat (l * 16 + r) :: byte) = l * 16 + r" by (rule unat_pair)
  with z have "l = 0" "r = 0" by simp_all
  with l r have "a = CHR ''0''" "b = CHR ''0''" by (auto dest: charCodeToBase16_zero)
  moreover have "rest = []" using rest by (cases rest rule: hex_pairs.cases) (auto split: option.splits sum.splits)
  ultimately show ?thesis using 3 by simp
qed

lemma hex_string_never_single_zero:
  assumes "startsWith s ''0x''"
  shows "toFieldBytes (JString s) \<noteq> Inr [0]"
proof
  assume a: "toFieldBytes (JString s) = Inr [0]"
  then have ne: "s \<noteq> ''0x''" "s \<noteq> ''0x0''" "s \<noteq> ''0x00''" by auto
  from assms obtain t where s: "s = ''0x'' @ t"
    by (metis append_take_drop_id startsWith_def)
  from a ne assms have "hexToBytes s = Inr [0]" by (auto split: if_splits)
  then have "(if odd (length t) then CHR ''0'' # t else t) = ''00''"
    using s by (auto simp: hexToBytes_def Let_def dest: hex_pairs_single_zero)
  then have "t = ''0'' \<or> t = ''00''" by (auto split: if_splits)
  with s ne show False by auto
qed

lemma utf8_unit_nonempty: "utf8_unit c \<noteq> []"
  by (simp add: utf8_unit_def Let_def)

lemma utf8_unit_zero: "utf8_unit c = [0] \<longleftrightarrow> c = CHR 0x00"
proof
  assume "utf8_unit c = [0]"
  then have lt: "(of_char c :: nat) < 128" and z: "(of_nat (of_char c) :: byte) = 0"
    by (auto simp: utf8_unit_def Let_def split: if_splits)
  have "unat (of_nat (of_char c) :: byte) = of_char c" using lt by (simp only: unat_of_nat) simp
  with z have "(of_char c :: nat) = 0" by simp
  then have "(of_char c :: nat) = of_char CHR 0x00" by simp
  then show "c = CHR 0x00" by (simp only: of_char_eq_iff)
next
  assume "c = CHR 0x00" then show "utf8_unit c = [0]" by (simp add: utf8_unit_def)
qed

lemma TextEncoder_single_zero: "TextEncoder_encode s = [0] \<longleftrightarrow> s = [CHR 0x00]"
proof
  assume a: "TextEncoder_encode s = [0]"
  show "s = [CHR 0x00]"
  proof (cases s)
    case Nil
    with a show ?thesis by (simp add: TextEncoder_encode_def)
  next
    case (Cons c cs)
    with a have e: "utf8_unit c @ TextEncoder_encode cs = [0]" by (simp add: TextEncoder_encode_def)
    then have u: "utf8_unit c = [0]" and r: "TextEncoder_encode cs = []"
      using utf8_unit_nonempty [of c] by (auto simp: append_eq_Cons_conv)
    have "cs = []"
    proof (cases cs)
      case Nil then show ?thesis .
    next
      case (Cons d ds)
      with r show ?thesis using utf8_unit_nonempty [of d] by (simp add: TextEncoder_encode_def)
    qed
    with u Cons show ?thesis by (simp add: utf8_unit_zero)
  qed
next
  assume "s = [CHR 0x00]" then show "TextEncoder_encode s = [0]"
    by (simp add: TextEncoder_encode_def utf8_unit_zero)
qed

text \<open>
  Claim C10, as stated, says that no string input is encoded as the one byte 0x00.
  The one-character string U+0000 is: it does not start with \<^verbatim>\<open>0x\<close>, so it goes
  through the UTF-8 branch.
\<close>

theorem toFieldBytes_NUL_string_is_zero_byte: "toFieldBytes (JString [CHR 0x00]) = Inr [0x00]"
  by (simp add: startsWith_def TextEncoder_encode_def utf8_unit_def)

text \<open>
  Claim C10, amended. The strings \<^verbatim>\<open>""\<close>, \<^verbatim>\<open>"0x"\<close>, \<^verbatim>\<open>"0x0"\<close> and \<^verbatim>\<open>"0x00"\<close> all
  give the empty byte string, so \<^verbatim>\<open>"0x00"\<close> cannot be told from the integer 0; and
  the only string that gives the one byte 0x00 is the one-character string U+0000 (no
  string that starts with \<^verbatim>\<open>0x\<close> does).
\<close>

theorem toFieldBytes_zero_strings:
  "toFieldBytes (JString '''') = Inr [] \<and> toFieldBytes (JString ''0x'') = Inr [] \<and>
   toFieldBytes (JString ''0x0'') = Inr [] \<and> toFieldBytes (JString ''0x00'') = Inr [] \<and>
   toFieldBytes (JString ''0x00'') = toFieldBytes (JBigInt 0) \<and>
   (toFieldBytes (JString s) = Inr [0x00] \<longleftrightarrow> s = [CHR 0x00])"
proof -
  have "toFieldBytes (JString s) = Inr [0x00] \<longleftrightarrow> s = [CHR 0x00]"
  proof (cases "startsWith s ''0x''")
    case True
    then have "s \<noteq> [CHR 0x00]" by (auto simp: startsWith_def)
    with True show ?thesis using hex_string_never_single_zero [of s] by simp
  next
    case False
    then have "s \<noteq> ''0x''" "s \<noteq> ''0x0''" "s \<noteq> ''0x00''" by (auto simp: startsWith_def)
    with False show ?thesis by (auto simp: TextEncoder_single_zero)
  qed
  then show ?thesis by (simp add: bigint_bytes_def)
qed

section \<open>Hex strings, hashes and the search loop\<close>

lemma byte_nibbles: "of_nat (unat b div 16 * 16 + unat b mod 16) = (b :: byte)"
  by simp

lemma unat_byte_div16: "unat (b :: byte) div 16 < 16"
proof -
  have "unat b < 256" using unsigned_less [of b] by simp
  then show ?thesis by simp
qed

lemma hex_pairs_byte_hex:
  "hex_pairs (concat (map byte_hex bs)) = Inr bs"
proof (induction bs)
  case Nil
  then show ?case by simp
next
  case (Cons b bs)
  have l: "charCodeToBase16 (hex_digit (unat b div 16)) = Some (unat b div 16)"
    by (rule charCodeToBase16_hex_digit) (rule unat_byte_div16)
  have r: "charCodeToBase16 (hex_digit (unat b mod 16)) = Some (unat b mod 16)"
    by (rule charCodeToBase16_hex_digit) simp
  show ?case using Cons l r by (simp add: byte_hex_def byte_nibbles)
qed

lemma length_concat_byte_hex: "length (concat (map byte_hex bs)) = 2 * length bs"
  by (induction bs) (simp_all add: byte_hex_def)

lemma hexToBytes_bytesToHex: "hexToBytes (bytesToHex bs) = Inr bs"
  by (simp add: hexToBytes_def bytesToHex_def length_concat_byte_hex hex_pairs_byte_hex)

lemma bytesToHex_inject: "bytesToHex a = bytesToHex b \<longleftrightarrow> a = b"
  by (metis hexToBytes_bytesToHex sum.inject(2))

lemma toLowerCase_bytesToHex: "toLowerCase (bytesToHex bs) = bytesToHex bs"
proof -
  have "map lower_unit (concat (map byte_hex bs)) = concat (map byte_hex bs)"
    by (induction bs) (simp_all add: byte_hex_def lower_unit_hex_digit unat_byte_div16)
  moreover have "lower_unit CHR ''0'' = CHR ''0''" "lower_unit CHR ''x'' = CHR ''x''"
    by (simp_all add: lower_unit_def)
  ultimately show ?thesis by (simp add: toLowerCase_def bytesToHex_def)
qed

lemma keccak256_bytesToHex: "keccak256 H (bytesToHex bs) = bytesToHex (H bs)"
proof -
  have "startsWith (bytesToHex bs) ''0x''" by (simp add: startsWith_def bytesToHex_def)
  then show ?thesis by (simp add: keccak256_def hexToBytes_bytesToHex)
qed

lemma try_mask_Inr_iff:
  "(\<exists>inc h. try_mask H base avail m = Inr (rlp, inc, h)) \<longleftrightarrow>
   (\<exists>hl inc. include_fields m 0 avail (base, []) = Inr (hl, inc) \<and> toRlp hl = Inr rlp)"
  by (auto simp: try_mask_def Let_def split: sum.splits prod.splits)

lemma try_mask_hash:
  "try_mask H base avail m = Inr (rlp, inc, h) \<Longrightarrow> keccak256 H rlp = h"
  by (auto simp: try_mask_def Let_def split: sum.splits prod.splits)


lemma candidate_rlp_eq:
  assumes "check_logsBloom (logsBloom blk) = Inr lb" "baseFields blk lb = Inr base"
  shows "candidate_rlp blk m =
     (case include_fields m 0 (availableOptionalFields blk) (base, []) of
                  Inl e \<Rightarrow> Inl e
                | Inr (headerList, included) \<Rightarrow> toRlp headerList)"
  using assms by (simp add: candidate_rlp_def)

lemma candidate_rlp_try_mask:
  assumes "check_logsBloom (logsBloom blk) = Inr lb" "baseFields blk lb = Inr base"
  shows "candidate_rlp blk m = Inr rlp \<longleftrightarrow> (\<exists>inc h. try_mask H base (availableOptionalFields blk) m = Inr (rlp, inc, h))"
  unfolding try_mask_Inr_iff candidate_rlp_eq [OF assms]
  by (auto split: sum.splits prod.splits)


lemma candidate_rlp_preamble:
  assumes "candidate_rlp blk m = Inr rlp"
  obtains lb base where "check_logsBloom (logsBloom blk) = Inr lb" "baseFields blk lb = Inr base"
  using assms by (auto simp: candidate_rlp_def split: sum.splits)

lemma search_loop_append:
  "search_loop H t b a (ms1 @ ms2) log =
     (case search_loop H t b a ms1 log of
        (log', Inr None) \<Rightarrow> search_loop H t b a ms2 log'
      | r \<Rightarrow> r)"
  by (induction ms1 arbitrary: log) (auto split: sum.splits prod.splits option.splits)

lemma bruteforceRLP_search:
  assumes "check_logsBloom (logsBloom blk) = Inr lb" "baseFields blk lb = Inr base"
  shows "bruteforceRLP H (Some blk) =
     search_loop H (hash blk) base (availableOptionalFields blk) (search_order (availableOptionalFields blk)) []"
  using assms
  by (simp add: bruteforceRLP_def search_order_def Let_def search_loop_append)

lemma search_loop_Some:
  "search_loop H t b a ms log = (log', Inr (Some rlp)) \<Longrightarrow>
   \<exists>m inc h. m \<in> set ms \<and> try_mask H b a m = Inr (rlp, inc, h) \<and> hash_eq h t
      \<and> log' \<noteq> [] \<and> last log' = (m, inc)"
proof (induction ms arbitrary: log)
  case Nil
  then show ?case by simp
next
  case (Cons m ms)
  show ?case
  proof (cases "try_mask H b a m")
    case (Inl e)
    with Cons.prems show ?thesis by simp
  next
    case (Inr x)
    obtain r inc h where x: "x = (r, inc, h)" by (cases x) auto
    show ?thesis
    proof (cases "hash_eq h t")
      case True
      with Inr x Cons.prems have "log' = log @ [(m, inc)]" "r = rlp" by auto
      with Inr x True show ?thesis by auto
    next
      case False
      with Inr x Cons.prems
      have "search_loop H t b a ms (log @ [(m, inc)]) = (log', Inr (Some rlp))" by simp
      from Cons.IH [OF this] show ?thesis by auto
    qed
  qed
qed




lemma findIndex_less: "list_ex p xs \<Longrightarrow> findIndex p xs < length xs"
  unfolding findIndex_def by (induction xs) auto

lemma priorityMasks_bound:
  "m \<in> set (priorityMasks avail (2 ^ length avail)) \<Longrightarrow> m < 2 ^ length avail"
  by (auto simp: priorityMasks_def dest: findIndex_less split: if_splits)

lemma set_search_order: "set (search_order avail) = {..<2 ^ length avail}"
  by (auto simp: search_order_def Let_def dest: priorityMasks_bound)


lemma include_fields_names:
  "include_fields msk i fs (hl, inc) = Inr (hl', inc') \<Longrightarrow>
   inc' = inc @ map fst (nths fs {j. bit msk (i + j)})"
proof (induction fs arbitrary: i hl inc)
  case Nil
  then show ?case by simp
next
  case (Cons f fs)
  show ?case
  proof (cases "bit msk i")
    case True
    then have t: "msk AND push_bit i 1 \<noteq> 0" by (simp add: bit_iff_and_push_bit_not_eq_0)
    with Cons.prems obtain b where b: "toFieldBytes (snd f) = Inr b"
      and r: "include_fields msk (i + 1) fs (hl @ [b], inc @ [fst f]) = Inr (hl', inc')"
      by (auto split: sum.splits)
    from Cons.IH [OF r] True show ?thesis by (simp add: nths_Cons)
  next
    case False
    then have t: "\<not> msk AND push_bit i 1 \<noteq> 0" by (simp add: bit_iff_and_push_bit_not_eq_0)
    with Cons.prems have r: "include_fields msk (i + 1) fs (hl, inc) = Inr (hl', inc')" by simp
    from Cons.IH [OF r] False show ?thesis by (simp add: nths_Cons)
  qed
qed

lemma include_fields_no_bits:
  "\<forall>j. \<not> bit msk (i + j) \<Longrightarrow> include_fields msk i fs acc = Inr acc"
proof (induction fs arbitrary: i)
  case Nil
  then show ?case by (cases acc) simp
next
  case (Cons f fs)
  from Cons.prems have "\<not> bit msk (i + 0)" by blast
  then have t: "msk AND push_bit i 1 = 0" by (simp add: bit_iff_and_push_bit_not_eq_0)
  have "\<forall>j. \<not> bit msk (i + 1 + j)" using Cons.prems by (metis add.assoc)
  from Cons.IH [OF this] t show ?case by (cases acc) simp
qed

lemma hash_matches_try_mask:
  "try_mask H base avail m = Inr (rlp, inc, h) \<Longrightarrow> hash_matches H rlp t = hash_eq h t"
  by (simp add: hash_matches_def try_mask_hash)

lemma avail_baseFee_first:
  assumes "baseFeePerGas blk \<noteq> JUndefined"
  shows "\<exists>rest. availableOptionalFields blk = (''baseFeePerGas'', baseFeePerGas blk) # rest"
  using assms by (simp add: availableOptionalFields_def)

lemma priorityMasks_baseFee_first:
  "priorityMasks ((''baseFeePerGas'', v) # rest) (2 ^ length ((''baseFeePerGas'', v) # rest))
     = [1, 2 ^ length ((''baseFeePerGas'', v) # rest) - 1]"
proof -
  have "(1::nat) < 2 ^ Suc (length rest)"
    by (metis One_nat_def less_exp less_trans_Suc zero_less_Suc)
  then show ?thesis by (simp add: priorityMasks_def findIndex_def)
qed

lemma bit_one_nat: "bit (1::nat) j \<longleftrightarrow> j = 0"
  by (rule bit_1_iff)

lemma include_fields_mask_1:
  "include_fields 1 0 (f # rest) (hl, inc) =
     (case toFieldBytes (snd f) of Inl e \<Rightarrow> Inl e | Inr b \<Rightarrow> Inr (hl @ [b], inc @ [fst f]))"
proof -
  have "\<forall>j. \<not> bit (1::nat) (0 + 1 + j)" by (simp add: bit_one_nat)
  then have "include_fields 1 (0 + 1) rest acc = Inr acc" for acc
    by (rule include_fields_no_bits)
  then show ?thesis by (simp split: sum.splits)
qed

lemma included_names_mask_1: "included_names 1 (f # rest) = [fst f]"
proof -
  have "{i. bit (1::nat) i} = {0}" unfolding bit_one_nat by simp
  then show ?thesis by (simp add: included_names_def nths_Cons)
qed

lemma try_mask_included:
  assumes "try_mask H base avail m = Inr (rlp, inc, h)"
  shows "inc = included_names m avail"
proof -
  from assms obtain hl where "include_fields m 0 avail (base, []) = Inr (hl, inc)"
    by (auto simp: try_mask_def split: sum.splits prod.splits)
  from include_fields_names [OF this] show ?thesis by (simp add: included_names_def)
qed

section \<open>The sample block, evaluated\<close>

lemma hex_pairs_zeros: "hex_pairs (replicate (2 * n) CHR ''0'') = Inr (replicate n 0)"
  by (induction n) (simp_all add: charCodeToBase16_def)

lemma hexToBytes_zeros: "hexToBytes (''0x'' @ replicate (2 * n) CHR ''0'') = Inr (replicate n 0)"
  by (simp add: hexToBytes_def hex_pairs_zeros)

lemma remove_whitespace_zeros:
  "remove_whitespace (''0x'' @ replicate n CHR ''0'') = ''0x'' @ replicate n CHR ''0''"
  by (simp add: remove_whitespace_def is_space_def)

lemma zero_bloom_not_short:
  "zero_bloom \<noteq> []" "zero_bloom \<noteq> ''0x''" "zero_bloom \<noteq> ''0x0''" "zero_bloom \<noteq> ''0x00''"
proof -
  have len: "length zero_bloom = 514" by (simp add: zero_bloom_def)
  have "zero_bloom \<noteq> s" if "length s < 514" for s using that len by auto
  then show "zero_bloom \<noteq> []" "zero_bloom \<noteq> ''0x''" "zero_bloom \<noteq> ''0x0''" "zero_bloom \<noteq> ''0x00''"
    by simp_all
qed

lemma check_logsBloom_zero_bloom: "check_logsBloom (Some zero_bloom) = Inr (Some zero_bloom)"
proof -
  have "hexToBytes zero_bloom = Inr (replicate 256 0)"
    using hexToBytes_zeros [of 256] by (simp add: zero_bloom_def)
  moreover have "remove_whitespace zero_bloom = zero_bloom"
    unfolding zero_bloom_def by (rule remove_whitespace_zeros)
  ultimately show ?thesis using zero_bloom_not_short(1) by (simp add: check_logsBloom_def)
qed

lemma toFieldBytes_zero_bloom: "toFieldBytes (JString zero_bloom) = Inr (replicate 256 0)"
proof -
  have "startsWith zero_bloom ''0x''" by (simp add: startsWith_def zero_bloom_def)
  moreover have "hexToBytes zero_bloom = Inr (replicate 256 0)"
    using hexToBytes_zeros [of 256] by (simp add: zero_bloom_def)
  ultimately show ?thesis using zero_bloom_not_short by simp
qed

lemma sample_strings:
  "toFieldBytes (JString ''0x1111111111111111111111111111111111111111111111111111111111111111'') =
     Inr [17, 17, 17, 17, 17, 17, 17, 17, 17, 17, 17, 17, 17, 17, 17, 17,
          17, 17, 17, 17, 17, 17, 17, 17, 17, 17, 17, 17, 17, 17, 17, 17]"
  "toFieldBytes (JString ''0x1dcc4de8dec75d7aab85b567b6ccd41ad312451b948a7413f0a142fd40d49347'') =
     Inr [29, 204, 77, 232, 222, 199, 93, 122, 171, 133, 181, 103, 182, 204, 212, 26,
          211, 18, 69, 27, 148, 138, 116, 19, 240, 161, 66, 253, 64, 212, 147, 71]"
  "toFieldBytes (JString ''0x4200000000000000000000000000000000000011'') =
     Inr [66, 0, 0, 0, 0, 0, 0, 0, 0, 0, 0, 0, 0, 0, 0, 0, 0, 0, 0, 17]"
  "toFieldBytes (JString ''0x2222222222222222222222222222222222222222222222222222222222222222'') =
     Inr [34, 34, 34, 34, 34, 34, 34, 34, 34, 34, 34, 34, 34, 34, 34, 34,
          34, 34, 34, 34, 34, 34, 34, 34, 34, 34, 34, 34, 34, 34, 34, 34]"
  "toFieldBytes (JString ''0x3333333333333333333333333333333333333333333333333333333333333333'') =
     Inr [51, 51, 51, 51, 51, 51, 51, 51, 51, 51, 51, 51, 51, 51, 51, 51,
          51, 51, 51, 51, 51, 51, 51, 51, 51, 51, 51, 51, 51, 51, 51, 51]"
  "toFieldBytes (JString ''0x4444444444444444444444444444444444444444444444444444444444444444'') =
     Inr [68, 68, 68, 68, 68, 68, 68, 68, 68, 68, 68, 68, 68, 68, 68, 68,
          68, 68, 68, 68, 68, 68, 68, 68, 68, 68, 68, 68, 68, 68, 68, 68]"
  "toFieldBytes (JString ''0x5555555555555555555555555555555555555555555555555555555555555555'') =
     Inr [85, 85, 85, 85, 85, 85, 85, 85, 85, 85, 85, 85, 85, 85, 85, 85,
          85, 85, 85, 85, 85, 85, 85, 85, 85, 85, 85, 85, 85, 85, 85, 85]"
  "toFieldBytes (JString ''0x'') = Inr []"
  by (simp_all add: startsWith_def hexToBytes_def charCodeToBase16_def)

lemma sample_numbers:
  "toFieldBytes (JBigInt 0) = Inr []"
  "toFieldBytes (JBigInt 1000) = Inr [3, 232]"
  "toFieldBytes (JBigInt 30000000) = Inr [1, 201, 195, 128]"
  "toFieldBytes (JBigInt 21000) = Inr [82, 8]"
  "toFieldBytes (JBigInt 1700000000) = Inr [101, 83, 241, 0]"
  "toFieldBytes (JBigInt 7) = Inr [7]"
  by (simp_all add: bigint_bytes_def toString16.simps hex_digit_def hexToBytes_def charCodeToBase16_def)

lemma sample_nonce: "toNonceBytes (Some ''0x0000000000000000'') = Inr [0, 0, 0, 0, 0, 0, 0, 0]"
  by (simp add: toNonceBytes_def hexToBytes_def charCodeToBase16_def)

lemma baseFields_london: "baseFields london_block (Some zero_bloom) = Inr london_base"
  by (simp add: baseFields_def london_block_def london_base_def nullish_def string_or_undefined_def
      sample_strings sample_numbers sample_nonce toFieldBytes_zero_bloom
      del: toFieldBytes.simps)

lemma sample_block_preamble:
  "check_logsBloom (logsBloom (sample_block h fee wroot blob)) = Inr (Some zero_bloom)"
  "baseFields (sample_block h fee wroot blob) (Some zero_bloom) = Inr london_base"
proof -
  have "logsBloom (sample_block h fee wroot blob) = Some zero_bloom"
    by (simp add: sample_block_def london_block_def)
  then show "check_logsBloom (logsBloom (sample_block h fee wroot blob)) = Inr (Some zero_bloom)"
    by (simp add: check_logsBloom_zero_bloom)
  have "baseFields (sample_block h fee wroot blob) (Some zero_bloom) = baseFields london_block (Some zero_bloom)"
    by (simp add: baseFields_def sample_block_def del: toFieldBytes.simps)
  then show "baseFields (sample_block h fee wroot blob) (Some zero_bloom) = Inr london_base"
    by (simp add: baseFields_london)
qed

lemma sample_block_avail:
  "availableOptionalFields (sample_block h fee wroot blob) =
     filter (\<lambda>f. snd f \<noteq> JUndefined)
       [(''baseFeePerGas'', fee), (''withdrawalsRoot'', wroot), (''blobGasUsed'', blob)]"
  by (simp add: availableOptionalFields_def sample_block_def london_block_def)

lemma sample_block_hash: "hash (sample_block h fee wroot blob) = h"
  by (simp add: sample_block_def)

lemma uint_be_1: "uint_be 1 v = [of_nat v]"
  by (simp add: uint_be_def)

lemma uint_be_2: "uint_be 2 v = [of_nat (v div 256), of_nat v]"
proof -
  have "[0..<2] = [0, 1]" by (simp add: upt_rec numeral_eq_Suc)
  then show ?thesis by (simp add: uint_be_def)
qed

lemmas rlp_eval = toRlp_def Let_def encode_bytes_def getSizeOfLength_def uint_be_1 uint_be_2
  london_base_def london_body_def bytesToHex_inject

lemma toRlp_samples:
  "toRlp london_base = Inr (bytesToHex rlp_mandatory)"
  "toRlp (london_base @ [[7]]) = Inr (bytesToHex rlp_with_fee)"
  "toRlp (london_base @ [[]]) = Inr (bytesToHex rlp_with_empty)"
  by (simp_all add: rlp_eval rlp_mandatory_def rlp_with_fee_def rlp_with_empty_def)

lemma sample_candidate:
  "candidate_rlp (sample_block h fee wroot blob) m =
     (case include_fields m 0 (availableOptionalFields (sample_block h fee wroot blob)) (london_base, []) of
        Inl e \<Rightarrow> Inl e
      | Inr (headerList, included) \<Rightarrow> toRlp headerList)"
  by (rule candidate_rlp_eq [OF sample_block_preamble])

lemma sample_run:
  "bruteforceRLP H (Some (sample_block h fee wroot blob)) =
     search_loop H h london_base (availableOptionalFields (sample_block h fee wroot blob))
       (search_order (availableOptionalFields (sample_block h fee wroot blob))) []"
  using bruteforceRLP_search [OF sample_block_preamble, of H h fee wroot blob]
  by (simp add: sample_block_hash)

lemma upt_small: "[0..<2] = [0, 1]" "[0..<4] = [0, 1, 2, 3]"
  by (simp_all add: upt_rec numeral_eq_Suc)

lemma search_order_0: "search_order [] = [0]"
  by (simp add: search_order_def priorityMasks_def findIndex_def Let_def)

lemma search_order_1: "search_order [(''baseFeePerGas'', v)] = [1, 1, 0]"
  by (simp add: search_order_def priorityMasks_def findIndex_def Let_def upt_small)

lemma search_order_blob: "search_order [(''blobGasUsed'', v)] = [1, 0]"
  by (simp add: search_order_def priorityMasks_def findIndex_def Let_def upt_small)

lemma search_order_2: "search_order [(''baseFeePerGas'', v), (''withdrawalsRoot'', w)] = [1, 3, 0, 2]"
  by (simp add: search_order_def priorityMasks_def findIndex_def Let_def upt_small)

lemma hash_eq_hex:
  "hash_eq (bytesToHex a) (Some (bytesToHex b)) \<longleftrightarrow> a = b"
  by (simp add: hash_eq_def toLowerCase_bytesToHex bytesToHex_inject)

lemma try_mask_fee:
  "try_mask H london_base [(''baseFeePerGas'', JBigInt 7)] (Suc 0) =
     Inr (bytesToHex rlp_with_fee, [''baseFeePerGas''], bytesToHex (H rlp_with_fee))"
  "try_mask H london_base [(''baseFeePerGas'', JBigInt 7)] 0 =
     Inr (bytesToHex rlp_mandatory, [], bytesToHex (H rlp_mandatory))"
  by (simp_all add: try_mask_def sample_numbers toRlp_samples keccak256_bytesToHex del: toFieldBytes.simps)

lemma candidate_fee:
  "candidate_rlp (sample_block h (JBigInt 7) JUndefined JUndefined) 1 = Inr (bytesToHex rlp_with_fee)"
  "candidate_rlp (sample_block h (JBigInt 7) JUndefined JUndefined) 0 = Inr (bytesToHex rlp_mandatory)"
  by (simp_all add: sample_candidate sample_block_avail sample_numbers toRlp_samples del: toFieldBytes.simps)

lemma differ: "rlp_with_fee \<noteq> rlp_mandatory" "rlp_mandatory \<noteq> rlp_with_fee"
  by (simp_all add: rlp_with_fee_def rlp_mandatory_def)

lemma hash_matches_plain:
  "hash_matches plain_digest (bytesToHex a) (Some (bytesToHex (plain_digest b))) \<longleftrightarrow> a = b"
  by (simp add: hash_matches_def keccak256_bytesToHex hash_eq_hex plain_digest_def)

lemma try_mask_empty:
  "try_mask H london_base [(''baseFeePerGas'', JBigInt 0)] (Suc 0) =
     Inr (bytesToHex rlp_with_empty, [''baseFeePerGas''], bytesToHex (H rlp_with_empty))"
  "try_mask H london_base [(''blobGasUsed'', JBigInt 0)] (Suc 0) =
     Inr (bytesToHex rlp_with_empty, [''blobGasUsed''], bytesToHex (H rlp_with_empty))"
  by (simp_all add: try_mask_def sample_numbers toRlp_samples keccak256_bytesToHex del: toFieldBytes.simps)

lemma hash_matches_None: "\<not> hash_matches H rlp None"
  by (simp add: hash_matches_def hash_eq_def)

lemma no_pattern_matches_None: "hash blk = None \<Longrightarrow> \<not> some_pattern_matches H blk"
  by (auto simp: some_pattern_matches_def list_ex_iff hash_matches_None split: sum.splits)

lemma fabricated_no_match:
  "\<not> hash_matches plain_digest (bytesToHex (0xf9 # bs)) (Some fabricated_hash)"
proof -
  have "toLowerCase fabricated_hash = fabricated_hash"
    by (simp add: fabricated_hash_def toLowerCase_def lower_unit_def)
  moreover have "bytesToHex (0xf9 # bs) \<noteq> fabricated_hash"
    by (simp add: bytesToHex_def byte_hex_def hex_digit_def fabricated_hash_def)
  ultimately show ?thesis
    by (simp add: hash_matches_def keccak256_bytesToHex plain_digest_def hash_eq_def toLowerCase_bytesToHex)
qed


section \<open>The properties of bruteforceRLP\<close>

text \<open>
  Claim C1 says: whenever the target is the hash of the encoding of an inclusion
  pattern, that encoding is returned. The code at a pre-London block: the base fee is
  \<^verbatim>\<open>null\<close> (which is how the client library reports a missing base fee), the target
  is the hash of the mandatory fields alone (pattern 0, which can be encoded). The test
  \<^verbatim>\<open>!== undefined\<close> lets \<^verbatim>\<open>null\<close> through, so the field counts as available, the first
  priority mask includes it, \<open>toFieldBytes\<close> throws on \<^verbatim>\<open>null\<close>, and nothing is
  returned. The same block with the base fee \<^verbatim>\<open>undefined\<close> returns the encoding after
  one candidate. Both hold for every hash function \<open>H\<close>.
\<close>

theorem round_trip_fails_on_null_base_fee:
  "\<forall>H. availableOptionalFields (pre_london_block H) = [(''baseFeePerGas'', JNull)]
     \<and> candidate_rlp (pre_london_block H) 0 = Inr (bytesToHex rlp_mandatory)
     \<and> keccak256 H (bytesToHex rlp_mandatory) = bytesToHex (H rlp_mandatory)
     \<and> hash (pre_london_block H) = Some (bytesToHex (H rlp_mandatory))
     \<and> bruteforceRLP H (Some (pre_london_block H)) = ([], Inl UndefinedValue)
     \<and> bruteforceRLP H (Some (sample_block (Some (bytesToHex (H rlp_mandatory)))
                                 JUndefined JUndefined JUndefined))
         = ([(0, [])], Inr (Some (bytesToHex rlp_mandatory)))"
  by (simp add: pre_london_block_def sample_block_avail sample_candidate sample_run sample_block_hash
      toRlp_samples keccak256_bytesToHex search_order_1 search_order_0 try_mask_def hash_eq_hex)

lemma null_withdrawals_try_mask:
  "try_mask H london_base [(''baseFeePerGas'', JBigInt 7), (''withdrawalsRoot'', JNull)] (Suc 0) =
     Inr (bytesToHex rlp_with_fee, [''baseFeePerGas''], bytesToHex (H rlp_with_fee))"
  "try_mask H london_base [(''baseFeePerGas'', JBigInt 7), (''withdrawalsRoot'', JNull)] 3 =
     Inl UndefinedValue"
  by (simp_all add: try_mask_def sample_numbers toRlp_samples keccak256_bytesToHex
      del: toFieldBytes.simps(3))

lemma null_withdrawals_candidates:
  "candidate_rlp (null_withdrawals_block h) 0 = Inr (bytesToHex rlp_mandatory)"
  "candidate_rlp (null_withdrawals_block h) 1 = Inr (bytesToHex rlp_with_fee)"
  "candidate_rlp (null_withdrawals_block h) 2 = Inl UndefinedValue"
  "candidate_rlp (null_withdrawals_block h) 3 = Inl UndefinedValue"
  by (simp_all add: null_withdrawals_block_def sample_candidate sample_block_avail sample_numbers
      toRlp_samples del: toFieldBytes.simps(3))

lemma null_withdrawals_run:
  "\<not> hash_eq (bytesToHex (H rlp_with_fee)) h \<Longrightarrow>
   bruteforceRLP H (Some (null_withdrawals_block h)) = ([(1, [''baseFeePerGas''])], Inl UndefinedValue)"
  by (simp add: null_withdrawals_block_def sample_run sample_block_avail search_order_2
      null_withdrawals_try_mask)

text \<open>
  Claim C2 says: null is returned if and only if no pattern has an encoding whose hash
  equals the target, after all \<open>2^k\<close> patterns were attempted. The code at a block
  whose withdrawals root is \<^verbatim>\<open>null\<close>: the test \<^verbatim>\<open>!== undefined\<close> lets \<^verbatim>\<open>null\<close>
  through, so patterns 2 and 3 cannot be encoded, and the encodings of patterns 0 and 1
  do not hash to the target; no pattern has a matching encoding. Yet the run does not
  return null: it hashes the candidate of mask 1 and throws on mask 3. With a missing
  target hash this holds for every hash function \<open>H\<close>; with the fabricated target it
  is shown for \<open>plain_digest\<close>. The same block with the withdrawals root
  \<^verbatim>\<open>undefined\<close> returns null after hashing both patterns.
\<close>

theorem not_found_fails_on_null_withdrawals_root:
  "(\<forall>H. \<not> some_pattern_matches H (null_withdrawals_block None)
       \<and> bruteforceRLP H (Some (null_withdrawals_block None))
           = ([(1, [''baseFeePerGas''])], Inl UndefinedValue)
       \<and> bruteforceRLP H (Some (sample_block None (JBigInt 7) JUndefined JUndefined))
           = ([(1, [''baseFeePerGas'']), (1, [''baseFeePerGas'']), (0, [])], Inr None))
   \<and> candidate_rlp (null_withdrawals_block (Some fabricated_hash)) 3 = Inl UndefinedValue
   \<and> \<not> some_pattern_matches plain_digest (null_withdrawals_block (Some fabricated_hash))
   \<and> bruteforceRLP plain_digest (Some (null_withdrawals_block (Some fabricated_hash)))
       = ([(1, [''baseFeePerGas''])], Inl UndefinedValue)
   \<and> bruteforceRLP plain_digest (Some (sample_block (Some fabricated_hash) (JBigInt 7) JUndefined JUndefined))
       = ([(1, [''baseFeePerGas'']), (1, [''baseFeePerGas'']), (0, [])], Inr None)"
proof (intro allI conjI)
  fix H
  show "\<not> some_pattern_matches H (null_withdrawals_block None)"
    by (rule no_pattern_matches_None) (simp add: null_withdrawals_block_def sample_block_hash)
  show "bruteforceRLP H (Some (null_withdrawals_block None))
      = ([(1, [''baseFeePerGas''])], Inl UndefinedValue)"
    by (rule null_withdrawals_run) (simp add: hash_eq_def)
  show "bruteforceRLP H (Some (sample_block None (JBigInt 7) JUndefined JUndefined))
      = ([(1, [''baseFeePerGas'']), (1, [''baseFeePerGas'']), (0, [])], Inr None)"
    by (simp add: sample_run sample_block_avail search_order_1 try_mask_fee hash_eq_def)
next
  show "candidate_rlp (null_withdrawals_block (Some fabricated_hash)) 3 = Inl UndefinedValue"
    by (rule null_withdrawals_candidates)
  have m0: "\<not> hash_matches plain_digest (bytesToHex rlp_mandatory) (Some fabricated_hash)"
    unfolding rlp_mandatory_def by (simp add: fabricated_no_match)
  have m1: "\<not> hash_matches plain_digest (bytesToHex rlp_with_fee) (Some fabricated_hash)"
    unfolding rlp_with_fee_def by (simp add: fabricated_no_match)
  have n: "[0..<2 ^ length (availableOptionalFields (null_withdrawals_block (Some fabricated_hash)))]
      = [0, 1, 2, 3]"
    by (simp add: null_withdrawals_block_def sample_block_avail upt_small)
  have h: "hash (null_withdrawals_block (Some fabricated_hash)) = Some fabricated_hash"
    by (simp add: null_withdrawals_block_def sample_block_hash)
  have c1: "candidate_rlp (null_withdrawals_block (Some fabricated_hash)) (Suc 0)
      = Inr (bytesToHex rlp_with_fee)"
    using null_withdrawals_candidates(2) [of "Some fabricated_hash"] by simp
  show "\<not> some_pattern_matches plain_digest (null_withdrawals_block (Some fabricated_hash))"
    unfolding some_pattern_matches_def n
    using m0 m1 by (simp add: null_withdrawals_candidates c1 h)
  have e1: "\<not> hash_eq (bytesToHex (plain_digest rlp_with_fee)) (Some fabricated_hash)"
    using m1 by (simp add: hash_matches_def keccak256_bytesToHex)
  have e0: "\<not> hash_eq (bytesToHex (plain_digest rlp_mandatory)) (Some fabricated_hash)"
    using m0 by (simp add: hash_matches_def keccak256_bytesToHex)
  from e1 show "bruteforceRLP plain_digest (Some (null_withdrawals_block (Some fabricated_hash)))
      = ([(1, [''baseFeePerGas''])], Inl UndefinedValue)"
    by (rule null_withdrawals_run)
  from e0 e1 show "bruteforceRLP plain_digest
       (Some (sample_block (Some fabricated_hash) (JBigInt 7) JUndefined JUndefined))
      = ([(1, [''baseFeePerGas'']), (1, [''baseFeePerGas'']), (0, [])], Inr None)"
    by (simp add: sample_run sample_block_avail search_order_1 try_mask_fee)
qed







text \<open>
  Claim C6. When the base fee is among the available optional fields and the pattern
  "base fee only" (mask 1, since the base fee is the first available field) is the one
  whose encoding hashes to the target, \<open>bruteforceRLP\<close> returns that encoding after
  hashing a single candidate, the first priority mask. The priority masks are the
  base-fee-only mask and then the all-fields mask.
\<close>

theorem bruteforceRLP_base_fee_fast_path:
  assumes fee: "baseFeePerGas blk \<noteq> JUndefined"
    and enc: "candidate_rlp blk 1 = Inr enc"
    and hit: "hash_matches H enc (hash blk)"
  shows "bruteforceRLP H (Some blk) = ([(1, [''baseFeePerGas''])], Inr (Some enc))
       \<and> priorityMasks (availableOptionalFields blk) (2 ^ length (availableOptionalFields blk))
           = [1, 2 ^ length (availableOptionalFields blk) - 1]
       \<and> included_names 1 (availableOptionalFields blk) = [''baseFeePerGas'']"
proof -
  let ?avail = "availableOptionalFields blk"
  from fee obtain rest where av: "?avail = (''baseFeePerGas'', baseFeePerGas blk) # rest"
    using avail_baseFee_first by blast
  have prio: "priorityMasks ?avail (2 ^ length ?avail) = [1, 2 ^ length ?avail - 1]"
    unfolding av by (rule priorityMasks_baseFee_first)
  from enc obtain lb base where pre: "check_logsBloom (logsBloom blk) = Inr lb" "baseFields blk lb = Inr base"
    by (rule candidate_rlp_preamble)
  from enc obtain inc h where tm: "try_mask H base ?avail 1 = Inr (enc, inc, h)"
    using candidate_rlp_try_mask [OF pre, where H = H] by blast
  have inc: "inc = [''baseFeePerGas'']"
    using tm unfolding try_mask_def av include_fields_mask_1
    by (auto split: sum.splits)
  have heq: "hash_eq h (hash blk)" using hit tm by (simp add: hash_matches_try_mask)
  have "search_order ?avail = 1 # (2 ^ length ?avail - 1) # filter (\<lambda>msk. msk \<notin> set [1, 2 ^ length ?avail - 1]) [0..<2 ^ length ?avail]"
    by (simp add: search_order_def Let_def prio)
  then have "bruteforceRLP H (Some blk) = ([(1, inc)], Inr (Some enc))"
    using tm heq by (simp add: bruteforceRLP_search [OF pre])
  moreover have "included_names 1 ?avail = [''baseFeePerGas'']"
    unfolding av included_names_mask_1 by simp
  ultimately show ?thesis using inc prio by simp
qed

text \<open>The theorem at the sample block whose target is the hash of the header with the
  base fee.\<close>

theorem bruteforceRLP_base_fee_fast_path_witness:
  "baseFeePerGas (sample_block (Some (bytesToHex (plain_digest rlp_with_fee))) (JBigInt 7) JUndefined JUndefined) \<noteq> JUndefined
   \<and> candidate_rlp (sample_block (Some (bytesToHex (plain_digest rlp_with_fee))) (JBigInt 7) JUndefined JUndefined) 1
        = Inr (bytesToHex rlp_with_fee)
   \<and> bruteforceRLP plain_digest
        (Some (sample_block (Some (bytesToHex (plain_digest rlp_with_fee))) (JBigInt 7) JUndefined JUndefined))
        = ([(1, [''baseFeePerGas''])], Inr (Some (bytesToHex rlp_with_fee)))"
proof -
  let ?blk = "sample_block (Some (bytesToHex (plain_digest rlp_with_fee))) (JBigInt 7) JUndefined JUndefined"
  have fee: "baseFeePerGas ?blk \<noteq> JUndefined" by (simp add: sample_block_def)
  have enc: "candidate_rlp ?blk 1 = Inr (bytesToHex rlp_with_fee)" by (rule candidate_fee)
  have hit: "hash_matches plain_digest (bytesToHex rlp_with_fee) (hash ?blk)"
    by (simp add: sample_block_hash hash_matches_plain)
  from bruteforceRLP_base_fee_fast_path [OF fee enc hit] fee enc show ?thesis by simp
qed

text \<open>
  Claim C8, as stated, says that the returned value holds the identity of the optional
  fields included. \<open>bruteforceRLP\<close> returns the encoding alone. Two blocks show that
  the encoding does not tell which fields went in: in one the only optional field is a
  base fee of 0, in the other a blob gas used of 0; both runs return the same string,
  having included a different field. This holds for every hash function \<open>H\<close>.
\<close>

theorem returned_value_hides_included_fields:
  "\<forall>H. snd (bruteforceRLP H (Some (zero_fee_block H))) = Inr (Some (bytesToHex rlp_with_empty))
     \<and> snd (bruteforceRLP H (Some (zero_blob_block H))) = Inr (Some (bytesToHex rlp_with_empty))
     \<and> fst (bruteforceRLP H (Some (zero_fee_block H))) = [(1, [''baseFeePerGas''])]
     \<and> fst (bruteforceRLP H (Some (zero_blob_block H))) = [(1, [''blobGasUsed''])]"
  by (simp add: zero_fee_block_def zero_blob_block_def sample_run sample_block_avail
      search_order_1 search_order_blob try_mask_empty hash_eq_hex)

text \<open>
  Claim C8, amended. On success \<open>bruteforceRLP\<close> returns the RLP encoding (a hex
  string) of one of the \<open>2^k\<close> candidates, and the hash of that encoding equals the
  target. The names of the optional fields included in the matching candidate are not
  part of the returned value: they are the last entry of the log (the source prints
  them to the console).
\<close>

theorem bruteforceRLP_result_on_success:
  assumes "bruteforceRLP H (Some blk) = (log, Inr (Some rlp))"
  shows "hash_matches H rlp (hash blk) \<and> log \<noteq> [] \<and>
         (\<exists>m < 2 ^ length (availableOptionalFields blk).
             last log = (m, included_names m (availableOptionalFields blk)) \<and>
             candidate_rlp blk m = Inr rlp)"
proof -
  let ?avail = "availableOptionalFields blk"
  from assms obtain lb base where pre: "check_logsBloom (logsBloom blk) = Inr lb" "baseFields blk lb = Inr base"
    by (auto simp: bruteforceRLP_def split: sum.splits)
  from assms have "search_loop H (hash blk) base ?avail (search_order ?avail) [] = (log, Inr (Some rlp))"
    by (simp add: bruteforceRLP_search [OF pre])
  then obtain m inc h where m: "m \<in> set (search_order ?avail)"
      "try_mask H base ?avail m = Inr (rlp, inc, h)" "hash_eq h (hash blk)" "log \<noteq> []" "last log = (m, inc)"
    by (auto dest: search_loop_Some)
  have "m < 2 ^ length ?avail" using m(1) by (simp add: set_search_order)
  moreover have "inc = included_names m ?avail" using m(2) by (rule try_mask_included)
  moreover have "candidate_rlp blk m = Inr rlp" using m(2) candidate_rlp_try_mask [OF pre, where H = H] by blast
  moreover have "hash_matches H rlp (hash blk)" using m(2,3) by (simp add: hash_matches_try_mask)
  ultimately show ?thesis using m(4,5) by blast
qed

text \<open>The theorem at the sample block whose target is the hash of the mandatory fields
  alone: the match comes in the second loop, at mask 0.\<close>

theorem bruteforceRLP_result_on_success_witness:
  "bruteforceRLP plain_digest
      (Some (sample_block (Some (bytesToHex (plain_digest rlp_mandatory))) (JBigInt 7) JUndefined JUndefined))
     = ([(1, [''baseFeePerGas'']), (1, [''baseFeePerGas'']), (0, [])], Inr (Some (bytesToHex rlp_mandatory)))
   \<and> hash_matches plain_digest (bytesToHex rlp_mandatory)
        (hash (sample_block (Some (bytesToHex (plain_digest rlp_mandatory))) (JBigInt 7) JUndefined JUndefined))
   \<and> included_names 0 (availableOptionalFields
        (sample_block (Some (bytesToHex (plain_digest rlp_mandatory))) (JBigInt 7) JUndefined JUndefined)) = []"
proof -
  let ?blk = "sample_block (Some (bytesToHex (plain_digest rlp_mandatory))) (JBigInt 7) JUndefined JUndefined"
  have run: "bruteforceRLP plain_digest (Some ?blk)
     = ([(1, [''baseFeePerGas'']), (1, [''baseFeePerGas'']), (0, [])], Inr (Some (bytesToHex rlp_mandatory)))"
    by (simp add: sample_run sample_block_avail search_order_1 try_mask_fee hash_eq_hex plain_digest_def differ)
  have names: "included_names 0 (availableOptionalFields ?blk) = []"
    by (simp add: included_names_def)
  from bruteforceRLP_result_on_success [OF run] run names show ?thesis by simp
qed

end
